theory Spec2Isabelle
  imports Main "HOL-Library.Word"
begin

section \<open>The browser front end (docs/app.js)\<close>

subsection \<open>JavaScript strings and the built-ins the page uses\<close>

text \<open>
  A JavaScript string is a sequence of UTF-16 code units. The page uses three built-ins on
  strings: \<^verbatim>\<open>String.prototype.trim\<close>, the truthiness test \<^verbatim>\<open>!source\<close> (a string is
  falsy exactly when it is empty) and \<^verbatim>\<open>parseInt\<close> with no radix argument.
\<close>

type_synonym jschar = "16 word"
type_synonym jsstring = "jschar list"

text \<open>Embedding of an ASCII literal of the source into JavaScript strings.\<close>

definition js :: "string \<Rightarrow> jsstring" where
  "js s = map (\<lambda>c. of_nat (of_char c)) s"

text \<open>
  ECMAScript WhiteSpace and LineTerminator code points (all of them in the basic plane):
  TAB, LF, VT, FF, CR, SPACE, NBSP, U+1680, U+2000..U+200A, U+2028, U+2029, U+202F, U+205F,
  U+3000 and U+FEFF. These are what \<^verbatim>\<open>trim\<close> strips and what \<^verbatim>\<open>parseInt\<close> skips.
\<close>

definition is_js_whitespace :: "jschar \<Rightarrow> bool" where
  "is_js_whitespace c \<longleftrightarrow>
     c = 0x09 \<or> c = 0x0A \<or> c = 0x0B \<or> c = 0x0C \<or> c = 0x0D \<or> c = 0x20 \<or> c = 0xA0 \<or>
     c = 0x1680 \<or> (0x2000 \<le> c \<and> c \<le> 0x200A) \<or> c = 0x2028 \<or> c = 0x2029 \<or>
     c = 0x202F \<or> c = 0x205F \<or> c = 0x3000 \<or> c = 0xFEFF"

definition trimStart :: "jsstring \<Rightarrow> jsstring" where
  "trimStart s = dropWhile is_js_whitespace s"

definition trimEnd :: "jsstring \<Rightarrow> jsstring" where
  "trimEnd s = rev (dropWhile is_js_whitespace (rev s))"

definition trim :: "jsstring \<Rightarrow> jsstring" where
  "trim s = trimEnd (trimStart s)"

text \<open>
  The Numbers the page handles. Everything \<^verbatim>\<open>parseInt\<close> returns is NaN, an infinity or a
  double whose value is an integer, and so are the two default literals; \<open>Num n\<close> is the
  finite double of value \<open>n\<close>. The two zeros are both \<open>Num 0\<close>: the page only tests them
  for truthiness, where they agree.
\<close>

datatype jsnumber = NaN | Num int | PosInfinity | NegInfinity

text \<open>The number of binary digits of a natural number.\<close>

fun bit_length :: "nat \<Rightarrow> nat" where
  "bit_length n = (if n = 0 then 0 else Suc (bit_length (n div 2)))"

declare bit_length.simps [simp del]

text \<open>
  The magnitude of the double nearest to a natural number: 53 significant bits, the rest
  rounded to nearest, ties to the even significand (IEEE 754 binary64).
\<close>

definition round_magnitude :: "nat \<Rightarrow> nat" where
  "round_magnitude a =
     (if bit_length a \<le> 53 then a
      else
        let shift = bit_length a - 53;
            q = a div 2 ^ shift;
            r = a mod 2 ^ shift;
            half = 2 ^ (shift - 1)
        in (if half < r \<or> (r = half \<and> odd q) then q + 1 else q) * 2 ^ shift)"

text \<open>
  The Number value of an integer given by sign and magnitude: the nearest double, and an
  infinity once rounding reaches \<open>2 ^ 1024\<close>. (For a decimal string of more than 20
  significant digits ECMAScript lets an implementation zero the later digits before
  rounding; the exact integer is rounded here.)
\<close>

definition to_number :: "bool \<Rightarrow> nat \<Rightarrow> jsnumber" where
  "to_number negative a =
     (let m = round_magnitude a
      in if 2 ^ 1024 \<le> m then (if negative then NegInfinity else PosInfinity)
         else Num (if negative then - int m else int m))"

text \<open>
  \<^verbatim>\<open>parseInt(string)\<close> with the radix left undefined: skip leading white space, read an
  optional sign, switch to radix 16 after a \<^verbatim>\<open>0x\<close>/\<^verbatim>\<open>0X\<close> prefix, read the longest run of
  digits of the radix; no digit gives NaN, otherwise the result is the Number value of the
  signed integer the digits denote.
\<close>

definition digit_value :: "jschar \<Rightarrow> nat option" where
  "digit_value c =
     (if 0x30 \<le> c \<and> c \<le> 0x39 then Some (unat c - 48)
      else if 0x61 \<le> c \<and> c \<le> 0x7A then Some (unat c - 87)
      else if 0x41 \<le> c \<and> c \<le> 0x5A then Some (unat c - 55)
      else None)"

definition is_radix_digit :: "nat \<Rightarrow> jschar \<Rightarrow> bool" where
  "is_radix_digit r c = (case digit_value c of None \<Rightarrow> False | Some v \<Rightarrow> v < r)"

definition digits_value :: "nat \<Rightarrow> jsstring \<Rightarrow> nat" where
  "digits_value r z = foldl (\<lambda>acc c. acc * r + the (digit_value c)) 0 z"

definition has_hex_prefix :: "jsstring \<Rightarrow> bool" where
  "has_hex_prefix s =
     (case s of
        c0 # c1 # _ \<Rightarrow> c0 = 0x30 \<and> (c1 = 0x78 \<or> c1 = 0x58)
      | _ \<Rightarrow> False)"

definition parseInt :: "jsstring \<Rightarrow> jsnumber" where
  "parseInt inputString =
     (let s0 = trimStart inputString;
          negative = (case s0 of c # _ \<Rightarrow> c = 0x2D | [] \<Rightarrow> False);
          s1 = (case s0 of c # rest \<Rightarrow> if c = 0x2B \<or> c = 0x2D then rest else s0 | [] \<Rightarrow> s0);
          r = (if has_hex_prefix s1 then 16 else 10);
          s2 = (if has_hex_prefix s1 then drop 2 s1 else s1);
          z = takeWhile (is_radix_digit r) s2
      in if z = [] then NaN else to_number negative (digits_value r z))"

text \<open>\<^verbatim>\<open>x || d\<close> for a Number \<open>x\<close>: NaN and the zeros are falsy, every other Number is kept.\<close>

definition or_default :: "jsnumber \<Rightarrow> jsnumber \<Rightarrow> jsnumber" where
  "or_default x d = (if x = NaN \<or> x = Num 0 then d else x)"

subsection \<open>The page state\<close>

text \<open>
  The DOM elements and the module variable the handlers read and write. \<open>error_hidden\<close> is
  membership of the class \<^verbatim>\<open>hidden\<close> in \<^verbatim>\<open>errorEl.classList\<close>, likewise \<open>loading_hidden\<close>.
  \<open>fmt_calls\<close> is not part of the page: it records, in order, the argument tuples with
  which \<^verbatim>\<open>format_with_options\<close> was invoked, so that "the formatter is not called" can be
  stated.
\<close>

type_synonym fmt_args = "jsstring \<times> jsnumber \<times> jsnumber \<times> bool \<times> bool"

record page =
  wasmReady :: bool
  input_value :: jsstring
  output_value :: jsstring
  error_text :: jsstring
  error_hidden :: bool
  loading_hidden :: bool
  version_text :: jsstring
  formatBtn_disabled :: bool
  maxWidth_value :: jsstring
  indentWidth_value :: jsstring
  useTabs_checked :: bool
  trailingComma_checked :: bool
  fmt_calls :: "fmt_args list"

text \<open>
  The imported WASM function \<^verbatim>\<open>format_with_options\<close> is a parameter: it either returns the
  formatted string (\<open>Inr\<close>) or throws a value whose \<^verbatim>\<open>toString()\<close> is the given string
  (\<open>Inl\<close>).
\<close>

type_synonym formatter =
  "jsstring \<Rightarrow> jsnumber \<Rightarrow> jsnumber \<Rightarrow> bool \<Rightarrow> bool \<Rightarrow> jsstring + jsstring"

definition showError :: "jsstring \<Rightarrow> page \<Rightarrow> page" where
  "showError message p = p\<lparr>error_text := message, error_hidden := False\<rparr>"

definition hideError :: "page \<Rightarrow> page" where
  "hideError p = p\<lparr>error_hidden := True\<rparr>"

definition formatCode :: "formatter \<Rightarrow> page \<Rightarrow> page" where
  "formatCode format_with_options p =
     (if \<not> wasmReady p then
        showError (js ''Formatter is still loading, please wait...'') p
      else
        let source = trim (input_value p) in
        if source = [] then hideError (p\<lparr>output_value := []\<rparr>)
        else
          let maxWidth = or_default (parseInt (maxWidth_value p)) (Num 80);
              indentWidth = or_default (parseInt (indentWidth_value p)) (Num 2);
              useTabs = useTabs_checked p;
              trailingComma = trailingComma_checked p;
              p1 = p\<lparr>fmt_calls :=
                      fmt_calls p @ [(source, maxWidth, indentWidth, useTabs, trailingComma)]\<rparr>
          in case format_with_options source maxWidth indentWidth useTabs trailingComma of
               Inr formatted \<Rightarrow> hideError (p1\<lparr>output_value := formatted\<rparr>)
             | Inl err \<Rightarrow> (showError err p1)\<lparr>output_value := []\<rparr>)"

definition clearInput :: "page \<Rightarrow> page" where
  "clearInput p = hideError (p\<lparr>input_value := [], output_value := []\<rparr>)"

text \<open>
  \<^verbatim>\<open>initWasm\<close>: the outcomes of \<^verbatim>\<open>await init()\<close> and of \<^verbatim>\<open>version()\<close> are parameters.
  \<open>init_result\<close> is \<open>None\<close> when the module loads and \<open>Some m\<close> when loading throws an
  error whose \<^verbatim>\<open>message\<close> reads \<open>m\<close>; \<open>version_result\<close> is \<open>Inr v\<close> when \<^verbatim>\<open>version()\<close>
  returns \<open>v\<close> and \<open>Inl m\<close> when it throws. Everything sits in one \<^verbatim>\<open>try\<close> block, so a
  throw of \<^verbatim>\<open>version()\<close> reaches the same handler, after \<open>wasmReady\<close> has been set.
\<close>

definition initWasm :: "formatter \<Rightarrow> jsstring option \<Rightarrow> jsstring + jsstring \<Rightarrow> page \<Rightarrow> page" where
  "initWasm format_with_options init_result version_result p =
     (let p1 = p\<lparr>loading_hidden := False\<rparr> in
      case init_result of
        Some m \<Rightarrow>
          (showError (js ''Failed to load formatter: '' @ m) p1)\<lparr>loading_hidden := True\<rparr>
      | None \<Rightarrow>
          let p2 = p1\<lparr>wasmReady := True, loading_hidden := True\<rparr> in
          case version_result of
            Inl m \<Rightarrow>
              (showError (js ''Failed to load formatter: '' @ m) p2)\<lparr>loading_hidden := True\<rparr>
          | Inr v \<Rightarrow>
              formatCode format_with_options
                (p2\<lparr>version_text := v, formatBtn_disabled := False\<rparr>))"

subsection \<open>Concrete pages and formatters\<close>

text \<open>
  Modelled from the spec: the page as the browser loads it, before the WASM module is ready.
  \<^verbatim>\<open>index.html\<close>, which gives the form controls their initial state, is missing; the controls
  are taken at the option defaults of section 6 of the specification (maximum width 80,
  indent width 2, tabs off, trailing comma on), the text areas empty and the error hidden.
\<close>

definition page_loading :: page where
  "page_loading =
     \<lparr>wasmReady = False, input_value = [], output_value = [], error_text = [],
      error_hidden = True, loading_hidden = False, version_text = [],
      formatBtn_disabled = True, maxWidth_value = js ''80'', indentWidth_value = js ''2'',
      useTabs_checked = False, trailingComma_checked = True, fmt_calls = []\<rparr>"

text \<open>The same page once the module is ready.\<close>

definition page_ready :: page where
  "page_ready = page_loading\<lparr>wasmReady := True, loading_hidden := True, formatBtn_disabled := False\<rparr>"

text \<open>
  A loaded page with a blank input and a leftover output; a loaded page with text typed in,
  both number fields emptied and the check boxes untouched; and a page that is still loading
  while its output area holds text.
\<close>

definition page_blank :: page where
  "page_blank = page_ready\<lparr>input_value := js ''  '', output_value := js ''old'', error_hidden := False\<rparr>"

definition page_typed :: page where
  "page_typed = page_ready\<lparr>input_value := js '' 1+ '', output_value := js ''1 + 2'',
     maxWidth_value := [], indentWidth_value := []\<rparr>"

definition page_stale :: page where
  "page_stale = page_loading\<lparr>input_value := js ''x'', output_value := js ''old''\<rparr>"

text \<open>Two formatters: one returns its source unchanged, one always throws.\<close>

definition echo_formatter :: formatter where
  "echo_formatter source maxWidth indentWidth useTabs trailingComma = Inr source"

definition failing_formatter :: formatter where
  "failing_formatter source maxWidth indentWidth useTabs trailingComma = Inl (js ''Parse error'')"

section \<open>The formatting core (specification sections 3, 4 and 6)\<close>

text \<open>
  The Rust sources of the core (expression model, precedence table, layout engine and the
  \<^verbatim>\<open>format\<close> facade) are not among the repository files at hand; only the browser caller
  above and the README are. Every definition of this section is therefore written from the
  words of the specification, and says which part of it. The CEL parser is an external
  library and stays a parameter throughout.
\<close>

subsection \<open>Expression model\<close>

text \<open>
  Modelled from the spec: the kinds of \<^verbatim>\<open>Literal\<close> of section 3 (int, unsigned int, float,
  string, bytes, bool, null); the Rust type is missing.
\<close>

datatype literal_kind = IntLit | UintLit | FloatLit | StringLit | BytesLit | BoolLit | NullLit

text \<open>Modelled from the spec: the unary operators \<^verbatim>\<open>-\<close> and \<^verbatim>\<open>!\<close> of section 3.\<close>

datatype unary_op = OpNeg | OpNot

text \<open>
  Modelled from the spec: the binary operators named by the precedence ladder of section
  4.1: logical \<^verbatim>\<open>||\<close>, \<^verbatim>\<open>&&\<close>, equality, relational, \<^verbatim>\<open>in\<close>, additive, multiplicative.
\<close>

datatype binary_op =
    OpOr | OpAnd | OpEq | OpNe | OpLt | OpLe | OpGt | OpGe | OpIn
  | OpAdd | OpSub | OpMul | OpDiv | OpMod

text \<open>
  Modelled from the spec: the expression node of section 3, a closed set of variants. A
  literal carries its canonical textual rendering, an identifier its name; a call has an
  optional receiver, a function name and its arguments in order; maps and structs are ordered
  sequences of (key, value) pairs, a struct with an optional type name; a comprehension holds
  the iteration variable, range, accumulator initialiser, loop condition, loop step and
  result; \<open>Grouping\<close> is a pair of explicit source parentheses, for parsers that keep them.
\<close>

datatype expr =
    Literal literal_kind string
  | Identifier string
  | Unary unary_op expr
  | Binary binary_op expr expr
  | Ternary expr expr expr
  | Member expr string
  | Index expr expr
  | Call "expr option" string "expr list"
  | List "expr list"
  | Map "(expr \<times> expr) list"
  | Struct "string option" "(expr \<times> expr) list"
  | Comprehension string expr expr expr expr expr
  | Grouping expr

text \<open>
  Modelled from the spec: \<^verbatim>\<open>FormatOptions\<close> of sections 3 and 6; the two widths are positive
  integers, here natural numbers.
\<close>

record format_options =
  max_width :: nat
  indent_width :: nat
  use_tabs :: bool
  trailing_comma :: bool

text \<open>Modelled from the spec: the option defaults listed in section 6.\<close>

definition default_options :: format_options where
  "default_options =
     \<lparr>max_width = 80, indent_width = 2, use_tabs = False, trailing_comma = True\<rparr>"

subsection \<open>Precedence table\<close>

text \<open>
  Modelled from the spec: the associativity column of the table of section 4.1
  (left, right, none).
\<close>

datatype associativity = LeftAssoc | RightAssoc | NonAssoc

text \<open>
  Modelled from the spec: the position a child takes next to its parent's operator, which
  section 4.1 calls "the child's position" (left or right operand).
\<close>

datatype side = LeftSide | RightSide

text \<open>
  Modelled from the spec: the "structural slot" a node occupies in its parent (sections 4.1,
  4.3 and 9): left or right operand of a binary operator, operand of a unary operator, one
  of the three places of a conditional, base of a member, index or method call; \<open>Delimited\<close>
  is every place enclosed by brackets or separators (list element, argument, index key, map
  key or value) and the top level.
\<close>

datatype slot =
    Delimited
  | BinaryLeft binary_op
  | BinaryRight binary_op
  | UnaryOperand unary_op
  | TernaryCond
  | TernaryThen
  | TernaryElse
  | PostfixBase

text \<open>
  Modelled from the spec: the binding strengths of section 4.1, lowest to highest: ternary,
  \<^verbatim>\<open>||\<close>, \<^verbatim>\<open>&&\<close>, equality, relational, \<^verbatim>\<open>in\<close>, additive, multiplicative, unary, postfix.
  The integers are the positions on that ladder.
\<close>

fun binary_strength :: "binary_op \<Rightarrow> nat" where
  "binary_strength OpOr = 2"
| "binary_strength OpAnd = 3"
| "binary_strength OpEq = 4"
| "binary_strength OpNe = 4"
| "binary_strength OpLt = 5"
| "binary_strength OpLe = 5"
| "binary_strength OpGt = 5"
| "binary_strength OpGe = 5"
| "binary_strength OpIn = 6"
| "binary_strength OpAdd = 7"
| "binary_strength OpSub = 7"
| "binary_strength OpMul = 8"
| "binary_strength OpDiv = 8"
| "binary_strength OpMod = 8"

text \<open>Modelled from the spec: the ternary \<^verbatim>\<open>?:\<close> is the lowest rung of the ladder.\<close>

definition ternary_strength :: nat where
  "ternary_strength = 1"

text \<open>Modelled from the spec: unary operators bind above every binary operator.\<close>

definition unary_strength :: nat where
  "unary_strength = 9"

text \<open>Modelled from the spec: postfix forms (call, index, member) are the highest rung.\<close>

definition postfix_strength :: nat where
  "postfix_strength = 10"

text \<open>
  Modelled from the spec: nodes that are no operator application (literal, identifier, list,
  map, struct, comprehension, grouping) never need parentheses; they rank above the ladder.
\<close>

definition atom_strength :: nat where
  "atom_strength = 11"

text \<open>
  Modelled from the spec: the associativity of a binary operator. Section 4.1 names the
  column without listing it; CEL's binary operators associate to the left, which is the case
  its example gives ("right operand of a left-associative operator at equal strength").
\<close>

definition binary_assoc :: "binary_op \<Rightarrow> associativity" where
  "binary_assoc op = LeftAssoc"

text \<open>Modelled from the spec: the binding strength of a node, by its kind and operator.\<close>

fun strength :: "expr \<Rightarrow> nat" where
  "strength (Ternary c a b) = ternary_strength"
| "strength (Binary op l r) = binary_strength op"
| "strength (Unary op e) = unary_strength"
| "strength (Member b f) = postfix_strength"
| "strength (Index b k) = postfix_strength"
| "strength (Call recv f args) = postfix_strength"
| "strength e = atom_strength"

text \<open>
  Modelled from the spec: when an associativity conflicts with a position (section 4.1): a
  left-associative operator with its right operand, a right-associative one with its left
  operand, a non-associative one with both.
\<close>

fun conflicts :: "associativity \<Rightarrow> side \<Rightarrow> bool" where
  "conflicts LeftAssoc RightSide = True"
| "conflicts RightAssoc LeftSide = True"
| "conflicts NonAssoc s = True"
| "conflicts a s = False"

text \<open>
  Modelled from the spec: the parent's strength, associativity and the child's position, per
  slot. A prefix operator has its operand on the right; the conditional associates to the
  right, with its condition and its first branch left of a delimiter; a postfix form has its
  base on the left.
\<close>

fun slot_info :: "slot \<Rightarrow> (nat \<times> associativity \<times> side) option" where
  "slot_info Delimited = None"
| "slot_info (BinaryLeft op) = Some (binary_strength op, binary_assoc op, LeftSide)"
| "slot_info (BinaryRight op) = Some (binary_strength op, binary_assoc op, RightSide)"
| "slot_info (UnaryOperand op) = Some (unary_strength, RightAssoc, RightSide)"
| "slot_info TernaryCond = Some (ternary_strength, RightAssoc, LeftSide)"
| "slot_info TernaryThen = Some (ternary_strength, RightAssoc, LeftSide)"
| "slot_info TernaryElse = Some (ternary_strength, RightAssoc, RightSide)"
| "slot_info PostfixBase = Some (postfix_strength, LeftAssoc, LeftSide)"

text \<open>
  Modelled from the spec: \<^verbatim>\<open>needs_parens(child, parent_slot)\<close> of section 4.1, true "when the
  child's binding strength is lower than the parent's, or equal with associativity
  conflicting with the child's position".
\<close>

definition needs_parens :: "expr \<Rightarrow> slot \<Rightarrow> bool" where
  "needs_parens child parent_slot =
     (case slot_info parent_slot of
        None \<Rightarrow> False
      | Some (parent_strength, a, s) \<Rightarrow>
          strength child < parent_strength \<or>
          (strength child = parent_strength \<and> conflicts a s))"

subsection \<open>Canonical single-line form\<close>

text \<open>Modelled from the spec: the text of a unary operator.\<close>

fun unary_text :: "unary_op \<Rightarrow> string" where
  "unary_text OpNeg = ''-''"
| "unary_text OpNot = ''!''"

text \<open>Modelled from the spec: the text of a binary operator.\<close>

fun binary_text :: "binary_op \<Rightarrow> string" where
  "binary_text OpOr = ''||''"
| "binary_text OpAnd = ''&&''"
| "binary_text OpEq = ''==''"
| "binary_text OpNe = ''!=''"
| "binary_text OpLt = ''<''"
| "binary_text OpLe = ''<=''"
| "binary_text OpGt = ''>''"
| "binary_text OpGe = ''>=''"
| "binary_text OpIn = ''in''"
| "binary_text OpAdd = ''+''"
| "binary_text OpSub = ''-''"
| "binary_text OpMul = ''*''"
| "binary_text OpDiv = ''/''"
| "binary_text OpMod = ''%''"

text \<open>Modelled from the spec: texts joined with a separator between neighbours.\<close>

fun join_with :: "string \<Rightarrow> string list \<Rightarrow> string" where
  "join_with sep [] = []"
| "join_with sep [x] = x"
| "join_with sep (x # y # ys) = x @ sep @ join_with sep (y # ys)"

text \<open>Modelled from the spec: "wrap in literal parentheses only if required" (section 4.3).\<close>

definition paren_if :: "bool \<Rightarrow> string \<Rightarrow> string" where
  "paren_if b s = (if b then ''('' @ s @ '')'' else s)"

text \<open>Modelled from the spec: the optional type name in front of a struct literal.\<close>

definition type_name_text :: "string option \<Rightarrow> string" where
  "type_name_text tn = (case tn of None \<Rightarrow> [] | Some n \<Rightarrow> n)"

text \<open>
  Modelled from the spec: the canonical single-line form of section 4.3: "all children
  inline, one space around binary operators, no space after unary, \<^verbatim>\<open>, \<close> between
  list/call/struct elements, \<^verbatim>\<open>: \<close> between map key and value"; every operand is wrapped
  as \<open>needs_parens\<close> says; a comprehension is the placeholder token; a grouping keeps its
  parentheses. The conditional is written with one space around \<^verbatim>\<open>?\<close> and \<^verbatim>\<open>:\<close>.
\<close>

fun single_line :: "expr \<Rightarrow> string" where
  "single_line (Literal k s) = s"
| "single_line (Identifier n) = n"
| "single_line (Unary op e) =
     unary_text op @ paren_if (needs_parens e (UnaryOperand op)) (single_line e)"
| "single_line (Binary op l r) =
     paren_if (needs_parens l (BinaryLeft op)) (single_line l) @ '' '' @ binary_text op @ '' '' @
     paren_if (needs_parens r (BinaryRight op)) (single_line r)"
| "single_line (Ternary c a b) =
     paren_if (needs_parens c TernaryCond) (single_line c) @ '' ? '' @
     paren_if (needs_parens a TernaryThen) (single_line a) @ '' : '' @
     paren_if (needs_parens b TernaryElse) (single_line b)"
| "single_line (Member b f) = paren_if (needs_parens b PostfixBase) (single_line b) @ ''.'' @ f"
| "single_line (Index b k) =
     paren_if (needs_parens b PostfixBase) (single_line b) @ ''['' @ single_line k @ '']''"
| "single_line (Call None f args) = f @ ''('' @ join_with '', '' (map single_line args) @ '')''"
| "single_line (Call (Some recv) f args) =
     paren_if (needs_parens recv PostfixBase) (single_line recv) @ ''.'' @ f @
     ''('' @ join_with '', '' (map single_line args) @ '')''"
| "single_line (List es) = ''['' @ join_with '', '' (map single_line es) @ '']''"
| "single_line (Map kvs) =
     ''{'' @ join_with '', '' (map (\<lambda>(k, v). single_line k @ '': '' @ single_line v) kvs) @ ''}''"
| "single_line (Struct tn kvs) =
     type_name_text tn @
     ''{'' @ join_with '', '' (map (\<lambda>(k, v). single_line k @ '': '' @ single_line v) kvs) @ ''}''"
| "single_line (Comprehension var rng init cond step res) = ''<comprehension>''"
| "single_line (Grouping e) = ''('' @ single_line e @ '')''"

subsection \<open>Layout engine\<close>

text \<open>
  Modelled from the spec: one indentation unit per nesting level, \<open>indent_width\<close> spaces or,
  with \<open>use_tabs\<close>, one tab character (section 3).
\<close>

definition indent :: "format_options \<Rightarrow> nat \<Rightarrow> string" where
  "indent opts depth =
     (if use_tabs opts then replicate depth (CHR 0x09)
      else replicate (depth * indent_width opts) (CHR '' ''))"

text \<open>
  Modelled from the spec: the test of section 4.3,
  \<^verbatim>\<open>current_indent_depth*indent_width + length(single_line_form) <= max_width\<close>, with a
  \<open>max_width\<close> of zero treated as "never break" (section 6).
\<close>

definition fits :: "format_options \<Rightarrow> nat \<Rightarrow> string \<Rightarrow> bool" where
  "fits opts depth s \<longleftrightarrow>
     max_width opts = 0 \<or> depth * indent_width opts + length s \<le> max_width opts"

text \<open>
  Modelled from the spec: a block of lines is a list of strings whose first line continues
  the line its parent is writing and whose later lines carry their own indentation. This puts
  text in front of a block.
\<close>

fun prefix_first :: "string \<Rightarrow> string list \<Rightarrow> string list" where
  "prefix_first p [] = [p]"
| "prefix_first p (l # ls) = (p @ l) # ls"

text \<open>
  Modelled from the spec: text put at the end of a block's last line ("the operator stays at
  the end of the line preceding its right operand"; separators; closing parentheses).
\<close>

fun append_last :: "string list \<Rightarrow> string \<Rightarrow> string list" where
  "append_last [] s = [s]"
| "append_last [l] s = [l @ s]"
| "append_last (l # m # ls) s = l # append_last (m # ls) s"

text \<open>
  Modelled from the spec: two blocks side by side, the second continuing the last line of
  the first (a map value after its key and \<^verbatim>\<open>: \<close>, an index key after \<^verbatim>\<open>[\<close>).
\<close>

fun join_blocks :: "string list \<Rightarrow> string list \<Rightarrow> string list" where
  "join_blocks [] ys = ys"
| "join_blocks [l] ys = prefix_first l ys"
| "join_blocks (l # m # ls) ys = l # join_blocks (m # ls) ys"

text \<open>Modelled from the spec: a block that starts a new line at the given depth.\<close>

definition on_new_line :: "format_options \<Rightarrow> nat \<Rightarrow> string list \<Rightarrow> string list" where
  "on_new_line opts depth ls = prefix_first (indent opts depth) ls"

text \<open>
  Modelled from the spec: parentheses around a block, decided as on the single-line path
  ("this governs both the single-line and multi-line paths identically").
\<close>

definition wrap_parens :: "bool \<Rightarrow> string list \<Rightarrow> string list" where
  "wrap_parens b ls = (if b then append_last (prefix_first ''('' ls) '')'' else ls)"

text \<open>
  Modelled from the spec: the separator after each wrapped element; "if \<open>trailing_comma\<close> is
  set, the last element also receives a separator when wrapped".
\<close>

fun with_separators :: "bool \<Rightarrow> string list list \<Rightarrow> string list list" where
  "with_separators trailing [] = []"
| "with_separators trailing [b] = [if trailing then append_last b '','' else b]"
| "with_separators trailing (b # c # bs) =
     append_last b '','' # with_separators trailing (c # bs)"

text \<open>
  Modelled from the spec: the wrapped form of lists, maps, structs and argument lists: "one
  element per line, each at \<open>indent_depth+1\<close>, closing bracket/brace returned to
  \<open>indent_depth\<close>".
\<close>

definition bracketed ::
  "format_options \<Rightarrow> nat \<Rightarrow> string \<Rightarrow> string list list \<Rightarrow> string \<Rightarrow> string list" where
  "bracketed opts depth opening elements closing =
     [opening] @
     concat (map (on_new_line opts (depth + 1)) (with_separators (trailing_comma opts) elements)) @
     [indent opts depth @ closing]"

text \<open>
  Modelled from the spec: whether the left operand belongs to the same binary chain, that is,
  applies an operator of the same binding strength; a chain is broken as a whole, "placing
  each operand on its own line".
\<close>

fun continues_chain :: "binary_op \<Rightarrow> expr \<Rightarrow> bool" where
  "continues_chain op (Binary op' l r) \<longleftrightarrow> binary_strength op' = binary_strength op"
| "continues_chain op e \<longleftrightarrow> False"

text \<open>
  Modelled from the spec: the links of a "Member/Index/Call chain": a member access, an
  index and a call with a receiver.
\<close>

fun is_chain_link :: "expr \<Rightarrow> bool" where
  "is_chain_link (Member b f) = True"
| "is_chain_link (Index b k) = True"
| "is_chain_link (Call (Some recv) f args) = True"
| "is_chain_link e = False"

text \<open>
  Modelled from the spec: \<^verbatim>\<open>render(node, options, current_indent_depth)\<close> of section 4.3, the
  lines of a node. Single-line first: when the canonical form fits, it is the only line.
  Otherwise, by kind:
  \<^item> literals, identifiers and comprehensions are atomic;
  \<^item> a binary chain puts its operands on lines of their own, the operator at the end of the
    line before its right operand, continuation lines one level deeper; \<open>forced\<close> says that
    the node is the left part of a chain that is already being broken, so that it is broken
    too;
  \<^item> lists, maps, structs and argument lists put one element per line;
  \<^item> a conditional breaks before \<^verbatim>\<open>?\<close> and before \<^verbatim>\<open>:\<close>, both branches one level deeper;
  \<^item> a call with a receiver keeps the receiver chain on one line and breaks its argument
    list; only when that first line still overflows does the chain go one link per line,
    which \<open>forced\<close> passes down the receiver chain;
  \<^item> parentheses are those of \<open>needs_parens\<close>, as on the single-line path, and a grouping
    keeps its own.
\<close>

fun layout :: "format_options \<Rightarrow> nat \<Rightarrow> bool \<Rightarrow> expr \<Rightarrow> string list" where
  "layout opts depth forced (Literal k s) = [s]"
| "layout opts depth forced (Identifier n) = [n]"
| "layout opts depth forced (Comprehension var rng init cond step res) = [''<comprehension>'']"
| "layout opts depth forced (Grouping e) =
     (if fits opts depth (single_line (Grouping e)) then [single_line (Grouping e)]
      else wrap_parens True (layout opts depth False e))"
| "layout opts depth forced (Unary op e) =
     (if fits opts depth (single_line (Unary op e)) then [single_line (Unary op e)]
      else prefix_first (unary_text op)
             (wrap_parens (needs_parens e (UnaryOperand op)) (layout opts depth False e)))"
| "layout opts depth forced (Binary op l r) =
     (if \<not> forced \<and> fits opts depth (single_line (Binary op l r))
      then [single_line (Binary op l r)]
      else
        append_last
          (wrap_parens (needs_parens l (BinaryLeft op))
             (layout opts depth
                (continues_chain op l \<and> \<not> needs_parens l (BinaryLeft op)) l))
          ('' '' @ binary_text op) @
        on_new_line opts (depth + 1)
          (wrap_parens (needs_parens r (BinaryRight op)) (layout opts (depth + 1) False r)))"
| "layout opts depth forced (Ternary c a b) =
     (if fits opts depth (single_line (Ternary c a b)) then [single_line (Ternary c a b)]
      else
        wrap_parens (needs_parens c TernaryCond) (layout opts depth False c) @
        on_new_line opts (depth + 1)
          (prefix_first ''? ''
             (wrap_parens (needs_parens a TernaryThen) (layout opts (depth + 1) False a))) @
        on_new_line opts (depth + 1)
          (prefix_first '': ''
             (wrap_parens (needs_parens b TernaryElse) (layout opts (depth + 1) False b))))"
| "layout opts depth forced (List es) =
     (if fits opts depth (single_line (List es)) then [single_line (List es)]
      else bracketed opts depth ''['' (map (layout opts (depth + 1) False) es) '']'')"
| "layout opts depth forced (Map kvs) =
     (if fits opts depth (single_line (Map kvs)) then [single_line (Map kvs)]
      else
        bracketed opts depth ''{''
          (map (\<lambda>(k, v).
                  join_blocks (append_last (layout opts (depth + 1) False k) '': '')
                    (layout opts (depth + 1) False v)) kvs)
          ''}'')"
| "layout opts depth forced (Struct tn kvs) =
     (if fits opts depth (single_line (Struct tn kvs)) then [single_line (Struct tn kvs)]
      else
        bracketed opts depth (type_name_text tn @ ''{'')
          (map (\<lambda>(k, v).
                  join_blocks (append_last (layout opts (depth + 1) False k) '': '')
                    (layout opts (depth + 1) False v)) kvs)
          ''}'')"
| "layout opts depth forced (Call None f args) =
     (if fits opts depth (single_line (Call None f args)) then [single_line (Call None f args)]
      else bracketed opts depth (f @ ''('') (map (layout opts (depth + 1) False) args) '')'')"
| "layout opts depth forced (Member b f) =
     (if \<not> forced \<and> fits opts depth (single_line (Member b f)) then [single_line (Member b f)]
      else
        wrap_parens (needs_parens b PostfixBase) (layout opts depth (is_chain_link b) b) @
        [indent opts (depth + 1) @ ''.'' @ f])"
| "layout opts depth forced (Index b k) =
     (if \<not> forced \<and> fits opts depth (single_line (Index b k)) then [single_line (Index b k)]
      else
        join_blocks
          (append_last
             (wrap_parens (needs_parens b PostfixBase)
                (layout opts depth (forced \<and> is_chain_link b) b))
             ''['')
          (append_last (layout opts depth False k) '']''))"
| "layout opts depth forced (Call (Some recv) f args) =
     (let head = paren_if (needs_parens recv PostfixBase) (single_line recv) @ ''.'' @ f @ ''(''
      in
        if \<not> forced \<and> fits opts depth (single_line (Call (Some recv) f args))
        then [single_line (Call (Some recv) f args)]
        else if \<not> forced \<and> fits opts depth head
        then bracketed opts depth head (map (layout opts (depth + 1) False) args) '')''
        else
          wrap_parens (needs_parens recv PostfixBase)
            (layout opts depth (is_chain_link recv) recv) @
          on_new_line opts (depth + 1)
            (if fits opts (depth + 1)
                  (''.'' @ f @ ''('' @ join_with '', '' (map single_line args) @ '')'')
             then [''.'' @ f @ ''('' @ join_with '', '' (map single_line args) @ '')'']
             else bracketed opts (depth + 1) (''.'' @ f @ ''('')
                    (map (layout opts (depth + 2) False) args) '')''))"

subsection \<open>Formatter facade\<close>

text \<open>Modelled from the spec: "the platform-neutral line terminator", a line feed (section 4.4).\<close>

definition newline :: char where
  "newline = CHR 0x0A"

text \<open>
  Modelled from the spec: the parser's diagnostic, "position + message" (section 4.4).
\<close>

record diagnostic =
  position :: nat
  message :: string

text \<open>
  Modelled from the spec: \<^verbatim>\<open>FormatError\<close>; \<^verbatim>\<open>ParseError{message, position}\<close> is its only kind
  (sections 6 and 7).
\<close>

datatype format_error = ParseError diagnostic

text \<open>
  Modelled from the spec: the facade "joins lines with the platform-neutral line terminator
  [...], with a single trailing newline" (section 4.4).
\<close>

definition render_text :: "string list \<Rightarrow> string" where
  "render_text ls = join_with [newline] ls @ [newline]"

text \<open>
  Modelled from the spec: \<^verbatim>\<open>format(source_text, options)\<close> of section 4.4. It invokes the
  external parser, here the parameter \<open>parse\<close>; a parse failure is surfaced as a \<open>ParseError\<close>
  carrying the diagnostic; otherwise the layout engine runs from indent depth 0.
\<close>

definition format ::
  "(string \<Rightarrow> diagnostic + expr) \<Rightarrow> string \<Rightarrow> format_options \<Rightarrow> format_error + string" where
  "format parse source_text options =
     (case parse source_text of
        Inl failure \<Rightarrow> Inl (ParseError failure)
      | Inr tree \<Rightarrow> Inr (render_text (layout options 0 False tree)))"

subsection \<open>Well-formed tokens and lines\<close>

text \<open>White space that may not end a line: space, tab and carriage return.\<close>

definition is_blank :: "char \<Rightarrow> bool" where
  "is_blank c \<longleftrightarrow> c = CHR '' '' \<or> c = CHR 0x09 \<or> c = CHR 0x0D"

text \<open>A text without a line break.\<close>

definition clean :: "string \<Rightarrow> bool" where
  "clean s \<longleftrightarrow> newline \<notin> set s"

text \<open>
  A text that can stand as a line, or as the last token on one: not empty, without a line
  break, and not ending in white space.
\<close>

definition token_ok :: "string \<Rightarrow> bool" where
  "token_ok s \<longleftrightarrow> s \<noteq> [] \<and> newline \<notin> set s \<and> \<not> is_blank (last s)"

text \<open>
  What a tokenising parser hands over: every literal text, identifier and field name is a
  token in the sense above, and function and type names hold no line break. The parts of a
  comprehension are never rendered and are left unconstrained.
\<close>

fun wf_tokens :: "expr \<Rightarrow> bool" where
  "wf_tokens (Literal k s) = token_ok s"
| "wf_tokens (Identifier n) = token_ok n"
| "wf_tokens (Unary op e) = wf_tokens e"
| "wf_tokens (Binary op l r) = (wf_tokens l \<and> wf_tokens r)"
| "wf_tokens (Ternary c a b) = (wf_tokens c \<and> wf_tokens a \<and> wf_tokens b)"
| "wf_tokens (Member b f) = (wf_tokens b \<and> token_ok f)"
| "wf_tokens (Index b k) = (wf_tokens b \<and> wf_tokens k)"
| "wf_tokens (Call None f args) = (clean f \<and> list_all wf_tokens args)"
| "wf_tokens (Call (Some recv) f args) = (wf_tokens recv \<and> clean f \<and> list_all wf_tokens args)"
| "wf_tokens (List es) = list_all wf_tokens es"
| "wf_tokens (Map kvs) = list_all (\<lambda>(k, v). wf_tokens k \<and> wf_tokens v) kvs"
| "wf_tokens (Struct tn kvs) =
     (clean (type_name_text tn) \<and> list_all (\<lambda>(k, v). wf_tokens k \<and> wf_tokens v) kvs)"
| "wf_tokens (Comprehension var rng init cond step res) = True"
| "wf_tokens (Grouping e) = wf_tokens e"

text \<open>A block of well-formed lines: at least one line, each of them a \<open>token_ok\<close> text.\<close>

definition good_lines :: "string list \<Rightarrow> bool" where
  "good_lines ls \<longleftrightarrow> ls \<noteq> [] \<and> list_all token_ok ls"

subsection \<open>Concrete expressions, options and a parser\<close>

text \<open>The call \<^verbatim>\<open>has(e)\<close>.\<close>

definition call_has :: "expr \<Rightarrow> expr" where
  "call_has e = Call None ''has'' [e]"

text \<open>
  The tree of scenario 4 of section 8, the two groups of the source kept as \<open>Grouping\<close> nodes.
\<close>

definition scenario4 :: expr where
  "scenario4 =
     Binary OpAnd
       (Grouping
          (Binary OpAnd
             (call_has (Member (Identifier ''metadata'') ''labels''))
             (Binary OpIn (Literal StringLit [CHR 0x22, CHR ''a'', CHR ''p'', CHR ''p'', CHR 0x22])
                (Member (Identifier ''metadata'') ''labels''))))
       (Grouping
          (Binary OpAnd
             (call_has
                (Member (Member (Member (Identifier ''spec'') ''template'') ''spec'') ''containers''))
             (Binary OpGt
                (Call None ''size''
                   [Member (Member (Member (Identifier ''spec'') ''template'') ''spec'')
                      ''containers''])
                (Literal IntLit ''0''))))"

text \<open>The trees of scenarios 1 and 2: \<^verbatim>\<open>1+2*3\<close> and \<^verbatim>\<open>[1,2,3]\<close>.\<close>

definition scenario1 :: expr where
  "scenario1 =
     Binary OpAdd (Literal IntLit ''1'') (Binary OpMul (Literal IntLit ''2'') (Literal IntLit ''3''))"

definition scenario2 :: expr where
  "scenario2 = List [Literal IntLit ''1'', Literal IntLit ''2'', Literal IntLit ''3'']"

text \<open>The defaults with a width of 60, and with a width of 12.\<close>

definition width60 :: format_options where
  "width60 = \<lparr>max_width = 60, indent_width = 2, use_tabs = False, trailing_comma = True\<rparr>"

definition width12 :: format_options where
  "width12 = \<lparr>max_width = 12, indent_width = 2, use_tabs = False, trailing_comma = True\<rparr>"

text \<open>\<^verbatim>\<open>[1000, 2000, 3000]\<close> and \<^verbatim>\<open>a - (b - c)\<close>.\<close>

definition numbers3 :: expr where
  "numbers3 = List [Literal IntLit ''1000'', Literal IntLit ''2000'', Literal IntLit ''3000'']"

definition difference_of_difference :: expr where
  "difference_of_difference =
     Binary OpSub (Identifier ''a'') (Binary OpSub (Identifier ''b'') (Identifier ''c''))"

text \<open>The source text of scenario 4.\<close>

definition scenario4_source :: string where
  "scenario4_source =
     ''(has(metadata.labels) && '' @ [CHR 0x22] @ ''app'' @ [CHR 0x22] @
     '' in metadata.labels) && (has(spec.template.spec.containers) && '' @
     ''size(spec.template.spec.containers) > 0)''"

text \<open>
  A stand-in for the external parser that knows one source text, the one of scenario 4, and
  reports a diagnostic on every other.
\<close>

definition single_source_parser :: "string \<Rightarrow> diagnostic + expr" where
  "single_source_parser s =
     (if s = scenario4_source then Inr scenario4
      else Inl \<lparr>position = 0, message = ''unexpected input''\<rparr>)"

section \<open>Properties of the front end\<close>

subsection \<open>Trimming\<close>

lemma all_dropWhile: "(\<forall>x\<in>set (dropWhile P xs). P x) \<longleftrightarrow> (\<forall>x\<in>set xs. P x)"
  by (induction xs) auto

lemma trim_Nil_iff: "trim s = [] \<longleftrightarrow> (\<forall>c \<in> set s. is_js_whitespace c)"
  by (simp add: trim_def trimStart_def trimEnd_def dropWhile_eq_Nil_conv all_dropWhile)

lemma dropWhile_all_append: "\<forall>c\<in>set a. P c \<Longrightarrow> dropWhile P (a @ s) = dropWhile P s"
  by (induction a) auto

lemma trimStart_pad:
  assumes "\<forall>c\<in>set a. is_js_whitespace c"
  shows "trimStart (a @ s) = trimStart s"
  using assms by (simp add: trimStart_def dropWhile_all_append)

lemma trimEnd_pad:
  assumes "\<forall>c\<in>set b. is_js_whitespace c"
  shows "trimEnd (s @ b) = trimEnd s"
  using assms by (simp add: trimEnd_def dropWhile_all_append)

lemma trimStart_append_keep:
  assumes "\<exists>c\<in>set s. \<not> is_js_whitespace c"
  shows "trimStart (s @ b) = trimStart s @ b"
  using assms by (auto simp: trimStart_def dropWhile_append1)

lemma trim_pad:
  assumes a: "\<forall>c\<in>set a. is_js_whitespace c" and b: "\<forall>c\<in>set b. is_js_whitespace c"
  shows "trim (a @ s @ b) = trim s"
proof (cases "\<forall>c\<in>set s. is_js_whitespace c")
  case True
  with a b have "\<forall>c\<in>set (a @ s @ b). is_js_whitespace c" by auto
  then have "trim (a @ s @ b) = []" by (simp only: trim_Nil_iff)
  moreover from True have "trim s = []" by (simp only: trim_Nil_iff)
  ultimately show ?thesis by simp
next
  case False
  then have "trimStart (s @ b) = trimStart s @ b"
    by (intro trimStart_append_keep) auto
  then show ?thesis
    by (simp add: trim_def trimStart_pad [OF a] trimEnd_pad [OF b])
qed

lemma formatCode_input_only:
  assumes "trim s = trim (input_value p)"
  shows "formatCode fmt (p\<lparr>input_value := s\<rparr>) = (formatCode fmt p)\<lparr>input_value := s\<rparr>"
  using assms
  by (simp add: formatCode_def showError_def hideError_def Let_def split: sum.splits)

subsection \<open>Blank input and surrounding white space\<close>

text \<open>
  C9 (as amended). Once the formatter is loaded (\<open>wasmReady\<close>), for every input that is
  empty or consists only of white space, \<open>formatCode\<close> sets the output to the empty string
  and hides the error without calling \<^verbatim>\<open>format_with_options\<close>. In every state, white space
  added before and after the input changes nothing but the input field itself, and every
  call to the formatter that \<open>formatCode\<close> adds passes the trimmed input as its source.
\<close>

theorem formatCode_blank_and_trim:
  "(wasmReady p \<longrightarrow> (\<forall>c\<in>set (input_value p). is_js_whitespace c) \<longrightarrow>
      output_value (formatCode fmt p) = [] \<and> error_hidden (formatCode fmt p) \<and>
      fmt_calls (formatCode fmt p) = fmt_calls p) \<and>
   (\<forall>a b. (\<forall>c\<in>set a. is_js_whitespace c) \<longrightarrow> (\<forall>c\<in>set b. is_js_whitespace c) \<longrightarrow>
      formatCode fmt (p\<lparr>input_value := a @ input_value p @ b\<rparr>) =
        (formatCode fmt p)\<lparr>input_value := a @ input_value p @ b\<rparr>) \<and>
   (\<forall>c \<in> set (fmt_calls (formatCode fmt p)).
      c \<in> set (fmt_calls p) \<or> fst c = trim (input_value p))"
proof (intro conjI allI impI)
  assume "wasmReady p" and "\<forall>c\<in>set (input_value p). is_js_whitespace c"
  then have "trim (input_value p) = []" by (simp only: trim_Nil_iff)
  with \<open>wasmReady p\<close> have "formatCode fmt p = hideError (p\<lparr>output_value := []\<rparr>)"
    by (simp add: formatCode_def)
  then show "output_value (formatCode fmt p) = []" "error_hidden (formatCode fmt p)"
    "fmt_calls (formatCode fmt p) = fmt_calls p"
    by (simp_all add: hideError_def)
next
  fix a b
  assume "\<forall>c\<in>set a. is_js_whitespace c" and "\<forall>c\<in>set b. is_js_whitespace c"
  then have "trim (a @ input_value p @ b) = trim (input_value p)" by (rule trim_pad)
  then show "formatCode fmt (p\<lparr>input_value := a @ input_value p @ b\<rparr>) =
        (formatCode fmt p)\<lparr>input_value := a @ input_value p @ b\<rparr>"
    by (rule formatCode_input_only)
next
  show "\<forall>c \<in> set (fmt_calls (formatCode fmt p)).
      c \<in> set (fmt_calls p) \<or> fst c = trim (input_value p)"
    by (auto simp: formatCode_def showError_def hideError_def Let_def split: sum.splits)
qed

text \<open>The theorem at a loaded page whose input is two spaces and whose output is stale.\<close>

theorem formatCode_blank_and_trim_witness:
  "wasmReady page_blank \<and> input_value page_blank = js ''  '' \<and>
   output_value page_blank = js ''old'' \<and>
   output_value (formatCode failing_formatter page_blank) = [] \<and>
   error_hidden (formatCode failing_formatter page_blank) \<and>
   fmt_calls (formatCode failing_formatter page_blank) = fmt_calls page_blank"
proof -
  have r: "wasmReady page_blank"
    by (simp add: page_blank_def page_ready_def page_loading_def)
  have w: "\<forall>c\<in>set (input_value page_blank). is_js_whitespace c"
    by (simp add: page_blank_def page_ready_def page_loading_def js_def is_js_whitespace_def)
  from formatCode_blank_and_trim [of page_blank failing_formatter] r w
  have "output_value (formatCode failing_formatter page_blank) = [] \<and>
        error_hidden (formatCode failing_formatter page_blank) \<and>
        fmt_calls (formatCode failing_formatter page_blank) = fmt_calls page_blank"
    by blast
  then show ?thesis
    by (simp add: page_blank_def page_ready_def page_loading_def)
qed

text \<open>
  Before the formatter is loaded the guard at the head of \<open>formatCode\<close> wins: with an empty
  input the error is shown, not hidden.
\<close>

theorem formatCode_blank_counterexample:
  "input_value page_loading = [] \<and> error_hidden page_loading \<and>
   \<not> error_hidden (formatCode echo_formatter page_loading) \<and>
   error_text (formatCode echo_formatter page_loading) =
     js ''Formatter is still loading, please wait...''"
  by (simp add: page_loading_def formatCode_def showError_def)

subsection \<open>Numbers read from the option fields\<close>

lemmas parse_eval =
  parseInt_def trimStart_def has_hex_prefix_def js_def is_js_whitespace_def is_radix_digit_def
  digit_value_def digits_value_def to_number_def round_magnitude_def bit_length.simps Let_def

lemma parseInt_Nil: "parseInt [] = NaN"
  by (simp add: parseInt_def trimStart_def has_hex_prefix_def)

lemma parseInt_stops_at_letters: "parseInt (js ''12px'') = Num 12"
  by (simp add: parse_eval)

lemma parseInt_rounds_to_even: "parseInt (js ''9007199254740993'') = Num 9007199254740992"
  by (simp add: parse_eval)

lemma parseInt_hex_rounds_to_even: "parseInt (js ''-0x20000000000003'') = Num (- 9007199254740996)"
  by (simp add: parse_eval)

lemma bit_length_le: "a < 2 ^ k \<Longrightarrow> bit_length a \<le> k"
proof (induction k arbitrary: a)
  case 0 then show ?case by (simp add: bit_length.simps)
next
  case (Suc k)
  then have "a div 2 < 2 ^ k" by auto
  then have "bit_length (a div 2) \<le> k" by (rule Suc.IH)
  then show ?case by (subst bit_length.simps) simp
qed

lemma bit_length_lower: "a \<noteq> 0 \<Longrightarrow> 2 ^ (bit_length a - 1) \<le> a"
proof (induction a rule: bit_length.induct)
  case (1 n)
  show ?case
  proof (cases "n div 2 = 0")
    case True
    with 1 have "n = 1" by (metis One_nat_def div_less_iff_less_mult less_2_cases nat_neq_iff not_less_eq zero_less_numeral mult_2 div_eq_0_iff)
    then show ?thesis by (simp add: bit_length.simps)
  next
    case False
    with 1 have ih: "2 ^ (bit_length (n div 2) - 1) \<le> n div 2" by simp
    from False have pos: "0 < bit_length (n div 2)" by (subst bit_length.simps) simp
    from 1 have "bit_length n = Suc (bit_length (n div 2))" by (subst bit_length.simps) simp
    then have "(2::nat) ^ (bit_length n - 1) = 2 * 2 ^ (bit_length (n div 2) - 1)"
      using pos by (cases "bit_length (n div 2)") simp_all
    also have "\<dots> \<le> 2 * (n div 2)" using ih by simp
    also have "\<dots> \<le> n" by simp
    finally show ?thesis .
  qed
qed


lemma bit_length_upper: "a < 2 ^ bit_length a"
proof (induction a rule: bit_length.induct)
  case (1 n)
  show ?case
  proof (cases "n = 0")
    case True
    then show ?thesis by simp
  next
    case False
    with 1 have "n div 2 < 2 ^ bit_length (n div 2)" by simp
    then have "n < 2 * 2 ^ bit_length (n div 2)" by linarith
    moreover from False have "bit_length n = Suc (bit_length (n div 2))"
      by (subst bit_length.simps) simp
    ultimately show ?thesis by simp
  qed
qed

lemma round_magnitude_lower:
  assumes "a \<noteq> 0"
  shows "2 ^ (bit_length a - 1) \<le> round_magnitude a"
proof (cases "bit_length a \<le> 53")
  case True
  with bit_length_lower [OF assms] show ?thesis
    by (simp add: round_magnitude_def)
next
  case False
  define shift where "shift = bit_length a - 53"
  define q where "q = a div 2 ^ shift"
  from False have bl: "bit_length a - 1 = 52 + shift"
    by (simp add: shift_def)
  from bit_length_lower [OF assms] have "2 ^ (52 + shift) \<le> a"
    unfolding bl .
  then have low: "2 ^ 52 * 2 ^ shift \<le> a"
    by (simp only: power_add)
  then have "2 ^ 52 \<le> q"
    unfolding q_def by (simp add: less_eq_div_iff_mult_less_eq)
  then have "2 ^ 52 * 2 ^ shift \<le> q * 2 ^ shift"
    by simp
  also have "\<dots> \<le> (if 2 ^ (shift - 1) < a mod 2 ^ shift \<or>
        (a mod 2 ^ shift = 2 ^ (shift - 1) \<and> odd q) then q + 1 else q) * 2 ^ shift"
    by simp
  also from False have "\<dots> = round_magnitude a"
    by (simp add: round_magnitude_def Let_def shift_def q_def)
  finally have "2 ^ 52 * 2 ^ shift \<le> round_magnitude a" .
  then have "2 ^ (52 + shift) \<le> round_magnitude a"
    by (simp only: power_add)
  then show ?thesis
    unfolding bl .
qed

lemma to_number_overflow:
  assumes "2 ^ 1024 \<le> a"
  shows "to_number negative a = (if negative then NegInfinity else PosInfinity)"
proof -
  from assms have nz: "a \<noteq> 0" by auto
  have "\<not> bit_length a \<le> 1024"
  proof
    assume "bit_length a \<le> 1024"
    then have "(2::nat) ^ bit_length a \<le> 2 ^ 1024"
      by (intro power_increasing) simp_all
    with bit_length_upper [of a] assms show False by linarith
  qed
  then have "1024 \<le> bit_length a - 1" by simp
  then have "(2::nat) ^ 1024 \<le> 2 ^ (bit_length a - 1)"
    by (intro power_increasing) simp_all
  with round_magnitude_lower [OF nz] have "2 ^ 1024 \<le> round_magnitude a"
    by linarith
  then show ?thesis
    by (simp add: to_number_def)
qed

lemma to_number_exact:
  assumes "a < 2 ^ 53"
  shows "to_number negative a = Num (if negative then - int a else int a)"
proof -
  from assms have "bit_length a \<le> 53" by (rule bit_length_le)
  then have "round_magnitude a = a" by (simp add: round_magnitude_def)
  moreover have "(2::nat) ^ 53 < 2 ^ 1024" by simp
  ultimately show ?thesis using assms by (simp add: to_number_def)
qed

subsection \<open>Error and output never shown together\<close>

text \<open>
  C10 (as amended). After every \<open>formatCode\<close> call made once the formatter is loaded: if the
  error element is shown then the output holds the empty string; and when the formatter is
  invoked, success hides the error and shows the formatted text, while a throw shows the
  thrown value's text and empties the output. Before the formatter is loaded, \<open>formatCode\<close>
  shows the "still loading" error and changes nothing else, the output included.
\<close>

theorem formatCode_error_excludes_output:
  "(wasmReady p \<longrightarrow>
      (\<not> error_hidden (formatCode fmt p) \<longrightarrow> output_value (formatCode fmt p) = []) \<and>
      (trim (input_value p) \<noteq> [] \<longrightarrow>
         (case fmt (trim (input_value p))
                 (or_default (parseInt (maxWidth_value p)) (Num 80))
                 (or_default (parseInt (indentWidth_value p)) (Num 2))
                 (useTabs_checked p) (trailingComma_checked p) of
            Inr formatted \<Rightarrow>
              error_hidden (formatCode fmt p) \<and> output_value (formatCode fmt p) = formatted
          | Inl err \<Rightarrow>
              \<not> error_hidden (formatCode fmt p) \<and> error_text (formatCode fmt p) = err \<and>
              output_value (formatCode fmt p) = []))) \<and>
   (\<not> wasmReady p \<longrightarrow>
      formatCode fmt p =
        p\<lparr>error_text := js ''Formatter is still loading, please wait...'',
          error_hidden := False\<rparr>)"
  by (auto simp: formatCode_def showError_def hideError_def Let_def split: sum.splits)

text \<open>The theorem at a loaded page with a stale output and a formatter that throws.\<close>

theorem formatCode_error_excludes_output_witness:
  "wasmReady page_typed \<and> output_value page_typed = js ''1 + 2'' \<and>
   \<not> error_hidden (formatCode failing_formatter page_typed) \<and>
   output_value (formatCode failing_formatter page_typed) = [] \<and>
   error_text (formatCode failing_formatter page_typed) = js ''Parse error''"
proof -
  have r: "wasmReady page_typed"
    by (simp add: page_typed_def page_ready_def page_loading_def)
  have e: "\<not> error_hidden (formatCode failing_formatter page_typed)"
    by (simp add: formatCode_def page_typed_def page_ready_def page_loading_def
        failing_formatter_def showError_def Let_def js_def trim_def trimStart_def trimEnd_def
        is_js_whitespace_def)
  from formatCode_error_excludes_output [of page_typed failing_formatter] r e
  have "output_value (formatCode failing_formatter page_typed) = []"
    by blast
  moreover have "error_text (formatCode failing_formatter page_typed) = js ''Parse error''"
    by (simp add: formatCode_def page_typed_def page_ready_def page_loading_def
        failing_formatter_def showError_def Let_def js_def trim_def trimStart_def trimEnd_def
        is_js_whitespace_def)
  moreover have "output_value page_typed = js ''1 + 2''"
    by (simp add: page_typed_def page_ready_def page_loading_def)
  ultimately show ?thesis using r e by simp
qed

text \<open>
  On a page that is still loading while its output area holds text, \<open>formatCode\<close> shows the
  error and the text stays: the guard at the head of \<open>formatCode\<close> returns before the output
  is touched.
\<close>

theorem formatCode_stale_output_counterexample:
  "\<not> error_hidden (formatCode echo_formatter page_stale) \<and>
   output_value (formatCode echo_formatter page_stale) = js ''old'' \<and>
   output_value (formatCode echo_formatter page_stale) \<noteq> []"
  by (simp add: page_stale_def page_loading_def formatCode_def showError_def js_def)

subsection \<open>Option values handed to the formatter\<close>

text \<open>
  C8. When \<open>formatCode\<close> invokes the formatter and no value is supplied for an option, it
  passes the default: 80 for the maximum width and 2 for the indent width when the
  respective field is empty (or holds no number, or zero), \<open>False\<close> for tabs and \<open>True\<close> for
  the trailing comma when the respective check box stands as the page loaded it. Otherwise
  it passes the Number read from the field and the state of the box.
\<close>

theorem formatCode_option_defaults:
  assumes "wasmReady p" and "trim (input_value p) \<noteq> []"
  shows "\<exists>maxWidth indentWidth useTabs trailingComma.
           fmt_calls (formatCode fmt p) =
             fmt_calls p @ [(trim (input_value p), maxWidth, indentWidth, useTabs, trailingComma)] \<and>
           (maxWidth_value p = [] \<longrightarrow> maxWidth = Num 80) \<and>
           (indentWidth_value p = [] \<longrightarrow> indentWidth = Num 2) \<and>
           (useTabs_checked p = useTabs_checked page_loading \<longrightarrow> useTabs = False) \<and>
           (trailingComma_checked p = trailingComma_checked page_loading \<longrightarrow>
              trailingComma = True) \<and>
           maxWidth =
             (if parseInt (maxWidth_value p) = NaN \<or> parseInt (maxWidth_value p) = Num 0
              then Num 80 else parseInt (maxWidth_value p)) \<and>
           indentWidth =
             (if parseInt (indentWidth_value p) = NaN \<or> parseInt (indentWidth_value p) = Num 0
              then Num 2 else parseInt (indentWidth_value p)) \<and>
           useTabs = useTabs_checked p \<and> trailingComma = trailingComma_checked p"
  using assms
  by (auto simp: formatCode_def showError_def hideError_def Let_def or_default_def parseInt_Nil
      page_loading_def split: sum.splits)

text \<open>
  The theorem at a loaded page whose two number fields are empty and whose check boxes are
  untouched: the formatter is called with 80, 2, \<open>False\<close> and \<open>True\<close>.
\<close>

theorem formatCode_option_defaults_witness:
  "wasmReady page_typed \<and> maxWidth_value page_typed = [] \<and> indentWidth_value page_typed = [] \<and>
   useTabs_checked page_typed = useTabs_checked page_loading \<and>
   trailingComma_checked page_typed = trailingComma_checked page_loading \<and>
   fmt_calls (formatCode echo_formatter page_typed) = [(js ''1+'', Num 80, Num 2, False, True)]"
proof -
  have r: "wasmReady page_typed"
    by (simp add: page_typed_def page_ready_def page_loading_def)
  have t: "trim (input_value page_typed) = js ''1+''"
    by (simp add: page_typed_def page_ready_def page_loading_def js_def trim_def trimStart_def
        trimEnd_def is_js_whitespace_def)
  then have n: "trim (input_value page_typed) \<noteq> []" by (simp add: js_def)
  have f: "maxWidth_value page_typed = []" "indentWidth_value page_typed = []"
    "useTabs_checked page_typed = useTabs_checked page_loading"
    "trailingComma_checked page_typed = trailingComma_checked page_loading"
    "fmt_calls page_typed = []"
    by (simp_all add: page_typed_def page_ready_def page_loading_def)
  from formatCode_option_defaults [OF r n, of echo_formatter] f t
  have "fmt_calls (formatCode echo_formatter page_typed) =
      [(js ''1+'', Num 80, Num 2, False, True)]"
    by auto
  with r f show ?thesis by simp
qed

section \<open>Properties of the formatting core\<close>

subsection \<open>Lines without line breaks or trailing white space\<close>

lemma token_ok_clean: "token_ok s \<Longrightarrow> clean s"
  by (simp add: token_ok_def clean_def)

lemma token_ok_nonempty: "token_ok s \<Longrightarrow> s \<noteq> []"
  by (simp add: token_ok_def)

lemma not_token_ok_Nil [simp]: "\<not> token_ok []"
  by (simp add: token_ok_def)

lemma clean_Nil [simp]: "clean []"
  by (simp add: clean_def)

lemma clean_Cons [simp]: "clean (c # s) \<longleftrightarrow> c \<noteq> newline \<and> clean s"
  by (auto simp: clean_def)

lemma clean_append [simp]: "clean (a @ b) \<longleftrightarrow> clean a \<and> clean b"
  by (auto simp: clean_def)

lemma token_ok_Cons [simp]:
  "token_ok (c # s) \<longleftrightarrow> c \<noteq> newline \<and> (if s = [] then \<not> is_blank c else token_ok s)"
  by (auto simp: token_ok_def)

lemma token_ok_append [simp]:
  "token_ok (a @ b) \<longleftrightarrow> (if b = [] then token_ok a else clean a \<and> token_ok b)"
  by (auto simp: token_ok_def clean_def)

lemma clean_binary_text [simp]: "clean (binary_text op)"
  by (cases op) (simp_all add: newline_def)

lemma token_ok_binary_text [simp]: "token_ok (binary_text op)"
  by (cases op) (simp_all add: newline_def is_blank_def)

lemma binary_text_nonempty [simp]: "binary_text op \<noteq> []"
  by (cases op) simp_all

lemma clean_unary_text [simp]: "clean (unary_text op)"
  by (cases op) (simp_all add: newline_def)

lemma token_ok_paren_if [simp]: "token_ok s \<Longrightarrow> token_ok (paren_if b s)"
  by (auto simp: paren_if_def newline_def is_blank_def dest: token_ok_clean)

lemma paren_if_Nil [simp]: "paren_if b s = [] \<longleftrightarrow> \<not> b \<and> s = []"
  by (simp add: paren_if_def)

lemma clean_paren_if [simp]: "clean (paren_if b s) \<longleftrightarrow> clean s"
  by (simp add: paren_if_def newline_def)

lemma clean_join_with:
  "clean sep \<Longrightarrow> list_all clean xs \<Longrightarrow> clean (join_with sep xs)"
  by (induction sep xs rule: join_with.induct) simp_all

lemma clean_elements:
  assumes "\<And>x. x \<in> set es \<Longrightarrow> token_ok (single_line x)"
  shows "clean (join_with '', '' (map single_line es))"
proof (rule clean_join_with)
  show "clean '', ''" by (simp add: newline_def)
  show "list_all clean (map single_line es)"
    using assms by (auto simp: list_all_iff intro: token_ok_clean)
qed

lemma clean_entries:
  assumes "\<And>k v. (k, v) \<in> set kvs \<Longrightarrow> token_ok (single_line k) \<and> token_ok (single_line v)"
  shows "clean (join_with '', '' (map (\<lambda>(k, v). single_line k @ '': '' @ single_line v) kvs))"
proof (rule clean_join_with)
  show "clean '', ''" by (simp add: newline_def)
  show "list_all clean (map (\<lambda>(k, v). single_line k @ '': '' @ single_line v) kvs)"
    unfolding list_all_iff
  proof (intro ballI)
    fix x
    assume "x \<in> set (map (\<lambda>(k, v). single_line k @ '': '' @ single_line v) kvs)"
    then obtain k v where kv: "(k, v) \<in> set kvs"
      and x: "x = single_line k @ '': '' @ single_line v"
      by auto
    from assms [OF kv] show "clean x"
      by (simp add: x newline_def token_ok_clean)
  qed
qed

lemma single_line_ok: "wf_tokens e \<Longrightarrow> token_ok (single_line e)"
proof (induction e rule: single_line.induct)
  case (8 f args)
  then have "clean (join_with '', '' (map single_line args))"
    by (intro clean_elements) (auto simp: list_all_iff)
  with 8 show ?case
    by (simp add: newline_def is_blank_def)
next
  case (9 recv f args)
  then have "clean (join_with '', '' (map single_line args))"
    by (intro clean_elements) (auto simp: list_all_iff)
  with 9 show ?case
    by (auto simp: newline_def is_blank_def dest: token_ok_clean)
next
  case (10 es)
  then have "clean (join_with '', '' (map single_line es))"
    by (intro clean_elements) (auto simp: list_all_iff)
  then show ?case
    by (simp add: newline_def is_blank_def)
next
  case (11 kvs)
  then have "clean (join_with '', '' (map (\<lambda>(k, v). single_line k @ '': '' @ single_line v) kvs))"
    by (intro clean_entries) (auto simp: list_all_iff)
  then show ?case
    by (simp add: newline_def is_blank_def)
next
  case (12 tn kvs)
  then have "clean (join_with '', '' (map (\<lambda>(k, v). single_line k @ '': '' @ single_line v) kvs))"
    by (intro clean_entries) (auto simp: list_all_iff)
  with 12 show ?case
    by (simp add: newline_def is_blank_def)
qed (auto simp: newline_def is_blank_def dest: token_ok_clean token_ok_nonempty)

lemma good_lines_single [simp]: "good_lines [s] \<longleftrightarrow> token_ok s"
  by (simp add: good_lines_def)

lemma good_lines_Cons: "token_ok l \<Longrightarrow> good_lines ls \<Longrightarrow> good_lines (l # ls)"
  by (simp add: good_lines_def)

lemma good_lines_append: "good_lines xs \<Longrightarrow> good_lines ys \<Longrightarrow> good_lines (xs @ ys)"
  by (simp add: good_lines_def)

lemma clean_indent [simp]: "clean (indent opts depth)"
  by (simp add: indent_def clean_def newline_def)

lemma prefix_first_good: "clean p \<Longrightarrow> good_lines ls \<Longrightarrow> good_lines (prefix_first p ls)"
  by (cases ls) (auto simp: good_lines_def dest: token_ok_nonempty)

lemma append_last_good: "good_lines ls \<Longrightarrow> token_ok s \<Longrightarrow> good_lines (append_last ls s)"
  by (induction ls s rule: append_last.induct)
     (auto simp: good_lines_def dest: token_ok_nonempty token_ok_clean)

lemma join_blocks_good:
  "clean s \<Longrightarrow> good_lines ks \<Longrightarrow> good_lines vs \<Longrightarrow> good_lines (join_blocks (append_last ks s) vs)"
proof (induction ks s rule: append_last.induct)
  case (1 s)
  then show ?case by (simp add: good_lines_def)
next
  case (2 l s)
  then show ?case
    by (auto intro!: prefix_first_good dest: token_ok_clean)
next
  case (3 l m ls s)
  then have "good_lines (join_blocks (append_last (m # ls) s) vs)"
    by (simp add: good_lines_def)
  moreover from 3 have "token_ok l" by (simp add: good_lines_def)
  moreover have "append_last (m # ls) s \<noteq> []"
    by (cases ls) simp_all
  then obtain x xs where "append_last (m # ls) s = x # xs"
    by (cases "append_last (m # ls) s") auto
  ultimately show ?case
    by (auto intro: good_lines_Cons)
qed

lemma on_new_line_good: "good_lines ls \<Longrightarrow> good_lines (on_new_line opts depth ls)"
  by (simp add: on_new_line_def prefix_first_good)

lemma wrap_parens_good: "good_lines ls \<Longrightarrow> good_lines (wrap_parens b ls)"
  by (auto simp: wrap_parens_def newline_def is_blank_def intro!: append_last_good prefix_first_good)

lemma with_separators_good:
  "list_all good_lines bs \<Longrightarrow> list_all good_lines (with_separators t bs)"
  by (induction t bs rule: with_separators.induct)
     (auto simp: newline_def is_blank_def intro!: append_last_good)

lemma concat_on_new_line_good:
  "list_all good_lines bs \<Longrightarrow> list_all token_ok (concat (map (on_new_line opts depth) bs))"
proof (induction bs)
  case Nil
  then show ?case by simp
next
  case (Cons b bs)
  then have "good_lines (on_new_line opts depth b)"
    by (simp add: on_new_line_good)
  with Cons show ?case by (simp add: good_lines_def)
qed

lemma bracketed_good:
  assumes "token_ok opening" and "list_all good_lines elements" and "token_ok closing"
  shows "good_lines (bracketed opts depth opening elements closing)"
proof -
  have "list_all token_ok
          (concat (map (on_new_line opts (depth + 1))
             (with_separators (trailing_comma opts) elements)))"
    using assms(2) by (intro concat_on_new_line_good with_separators_good)
  with assms(1,3) show ?thesis
    by (auto simp: bracketed_def good_lines_def dest: token_ok_nonempty)
qed

lemma entries_good:
  assumes "\<And>k v. (k, v) \<in> set kvs \<Longrightarrow> good_lines (f k) \<and> good_lines (g v)"
  shows "list_all good_lines (map (\<lambda>(k, v). join_blocks (append_last (f k) '': '') (g v)) kvs)"
  unfolding list_all_iff
proof (intro ballI)
  fix x
  assume "x \<in> set (map (\<lambda>(k, v). join_blocks (append_last (f k) '': '') (g v)) kvs)"
  then obtain k v where kv: "(k, v) \<in> set kvs"
    and x: "x = join_blocks (append_last (f k) '': '') (g v)"
    by auto
  from assms [OF kv] show "good_lines x"
    unfolding x by (intro join_blocks_good) (simp_all add: newline_def)
qed

lemma layout_good: "wf_tokens e \<Longrightarrow> good_lines (layout opts depth forced e)"
proof (induction opts depth forced e rule: layout.induct)
  case (1 opts depth forced k s)
  then show ?case by simp
next
  case (2 opts depth forced n)
  then show ?case by simp
next
  case (3 opts depth forced var rng init cond step res)
  then show ?case by (simp add: newline_def is_blank_def)
next
  case (4 opts depth forced e)
  then show ?case
    using single_line_ok [of "Grouping e"]
    by (auto intro!: wrap_parens_good)
next
  case (5 opts depth forced op e)
  then show ?case
    using single_line_ok [of "Unary op e"]
    by (auto intro!: wrap_parens_good prefix_first_good)
next
  case (6 opts depth forced op l r)
  then show ?case
    using single_line_ok [of "Binary op l r"]
    by (auto simp: is_blank_def newline_def
        intro!: wrap_parens_good good_lines_append append_last_good on_new_line_good)
next
  case (7 opts depth forced c a b)
  then show ?case
    using single_line_ok [of "Ternary c a b"]
    by (auto simp: is_blank_def newline_def
        intro!: wrap_parens_good good_lines_append prefix_first_good on_new_line_good)
next
  case (8 opts depth forced es)
  then show ?case
    using single_line_ok [of "List es"]
    by (auto simp: is_blank_def newline_def list_all_iff intro!: bracketed_good)
next
  case (9 opts depth forced kvs)
  show ?case
  proof (cases "fits opts depth (single_line (Map kvs))")
    case True
    with single_line_ok [OF "9.prems"] show ?thesis
      by (simp only: layout.simps if_True good_lines_single)
  next
    case False
    have "\<And>k v. (k, v) \<in> set kvs \<Longrightarrow>
            good_lines (layout opts (depth + 1) False k) \<and>
            good_lines (layout opts (depth + 1) False v)"
      using "9.IH" [OF False] "9.prems" by (fastforce simp: list_all_iff)
    then have "list_all good_lines
          (map (\<lambda>(k, v). join_blocks (append_last (layout opts (depth + 1) False k) '': '')
                  (layout opts (depth + 1) False v)) kvs)"
      by (rule entries_good)
    then have "good_lines (bracketed opts depth ''{''
          (map (\<lambda>(k, v). join_blocks (append_last (layout opts (depth + 1) False k) '': '')
                  (layout opts (depth + 1) False v)) kvs) ''}'')"
      by (intro bracketed_good) (simp_all add: newline_def is_blank_def)
    with False show ?thesis
      by (simp only: layout.simps if_False)
  qed
next
  case (10 opts depth forced tn kvs)
  show ?case
  proof (cases "fits opts depth (single_line (Struct tn kvs))")
    case True
    with single_line_ok [OF "10.prems"] show ?thesis
      by (simp only: layout.simps if_True good_lines_single)
  next
    case False
    have "\<And>k v. (k, v) \<in> set kvs \<Longrightarrow>
            good_lines (layout opts (depth + 1) False k) \<and>
            good_lines (layout opts (depth + 1) False v)"
      using "10.IH" [OF False] "10.prems" by (fastforce simp: list_all_iff)
    then have "list_all good_lines
          (map (\<lambda>(k, v). join_blocks (append_last (layout opts (depth + 1) False k) '': '')
                  (layout opts (depth + 1) False v)) kvs)"
      by (rule entries_good)
    moreover from "10.prems" have "token_ok (type_name_text tn @ ''{'')"
      by (simp add: newline_def is_blank_def)
    ultimately have "good_lines (bracketed opts depth (type_name_text tn @ ''{'')
          (map (\<lambda>(k, v). join_blocks (append_last (layout opts (depth + 1) False k) '': '')
                  (layout opts (depth + 1) False v)) kvs) ''}'')"
      by (intro bracketed_good) (simp_all add: newline_def is_blank_def)
    with False show ?thesis
      by (simp only: layout.simps if_False)
  qed
next
  case (11 opts depth forced f args)
  then show ?case
    using single_line_ok [of "Call None f args"]
    by (auto simp: is_blank_def newline_def list_all_iff intro!: bracketed_good)
next
  case (12 opts depth forced b f)
  then show ?case
    using single_line_ok [of "Member b f"]
    by (auto simp: is_blank_def newline_def good_lines_def [of "[x]" for x]
        intro!: wrap_parens_good good_lines_append dest: token_ok_nonempty)
next
  case (13 opts depth forced b k)
  then show ?case
    using single_line_ok [of "Index b k"]
    by (auto simp: is_blank_def newline_def
        intro!: wrap_parens_good join_blocks_good append_last_good)
next
  case (14 opts depth forced recv f args)
  let ?e = "Call (Some recv) f args"
  let ?head = "paren_if (needs_parens recv PostfixBase) (single_line recv) @ ''.'' @ f @ ''(''"
  let ?link = "''.'' @ f @ ''('' @ join_with '', '' (map single_line args) @ '')''"
  from "14.prems" have wf: "wf_tokens recv" "clean f" "list_all wf_tokens args"
    by simp_all
  have sl: "token_ok (single_line ?e)"
    using "14.prems" by (rule single_line_ok)
  have head: "token_ok ?head"
    using single_line_ok [OF wf(1)] wf(2)
    by (auto simp: newline_def is_blank_def dest: token_ok_clean)
  have "clean (join_with '', '' (map single_line args))"
    using wf(3) by (intro clean_elements single_line_ok) (simp add: list_all_iff)
  with wf(2) have link: "token_ok ?link"
    by (simp add: newline_def is_blank_def)
  have op_ok: "token_ok (''.'' @ f @ ''('')"
    using wf(2) by (simp add: newline_def is_blank_def)
  have cl_ok: "token_ok '')''"
    by (simp add: newline_def is_blank_def)
  show ?case
  proof (cases "\<not> forced \<and> fits opts depth (single_line ?e)")
    case True
    then have "layout opts depth forced ?e = [single_line ?e]"
      by (auto simp add: Let_def simp del: single_line.simps)
    with sl show ?thesis
      by (simp only: good_lines_single)
  next
    case n1: False
    show ?thesis
    proof (cases "\<not> forced \<and> fits opts depth ?head")
      case True
      have "list_all good_lines (map (layout opts (depth + 1) False) args)"
        using "14.IH"(1) [OF refl n1 True] wf(3) by (simp add: list_all_iff)
      then have "good_lines (bracketed opts depth ?head
          (map (layout opts (depth + 1) False) args) '')'')"
        using head cl_ok by (intro bracketed_good)
      moreover from n1 True have "layout opts depth forced ?e =
          bracketed opts depth ?head (map (layout opts (depth + 1) False) args) '')''"
        by (auto simp add: Let_def simp del: single_line.simps)
      ultimately show ?thesis
        by (simp only:)
    next
      case n2: False
      have r: "good_lines (layout opts depth (is_chain_link recv) recv)"
        using "14.IH"(2) [OF refl n1 n2 wf(1)] .
      have t: "good_lines
          (if fits opts (depth + 1) ?link then [?link]
           else bracketed opts (depth + 1) (''.'' @ f @ ''('')
                  (map (layout opts (depth + 2) False) args) '')'')"
      proof (cases "fits opts (depth + 1) ?link")
        case True
        with link show ?thesis
          by (simp only: if_True good_lines_single)
      next
        case n3: False
        have "list_all good_lines (map (layout opts (depth + 2) False) args)"
          using "14.IH"(3) [OF refl n1 n2 n3] wf(3) by (simp add: list_all_iff)
        then have "good_lines (bracketed opts (depth + 1) (''.'' @ f @ ''('')
            (map (layout opts (depth + 2) False) args) '')'')"
          using op_ok cl_ok by (intro bracketed_good)
        with n3 show ?thesis
          by (simp only: if_False)
      qed
      have "good_lines
          (wrap_parens (needs_parens recv PostfixBase) (layout opts depth (is_chain_link recv) recv) @
           on_new_line opts (depth + 1)
             (if fits opts (depth + 1) ?link then [?link]
              else bracketed opts (depth + 1) (''.'' @ f @ ''('')
                     (map (layout opts (depth + 2) False) args) '')''))"
        using r t by (intro good_lines_append wrap_parens_good on_new_line_good)
      moreover from n1 n2 have "layout opts depth forced ?e =
           wrap_parens (needs_parens recv PostfixBase) (layout opts depth (is_chain_link recv) recv) @
           on_new_line opts (depth + 1)
             (if fits opts (depth + 1) ?link then [?link]
              else bracketed opts (depth + 1) (''.'' @ f @ ''('')
                     (map (layout opts (depth + 2) False) args) '')'')"
        by (auto simp add: Let_def simp del: single_line.simps)
      ultimately show ?thesis
        by (simp only:)
    qed
  qed
qed

lemma render_text_concat:
  "ls \<noteq> [] \<Longrightarrow> render_text ls = concat (map (\<lambda>l. l @ [newline]) ls)"
  unfolding render_text_def
  by (induction "[newline]" ls rule: join_with.induct) simp_all

lemma concat_lines_end:
  assumes "ls \<noteq> []" and "last ls \<noteq> []"
  shows "concat (map (\<lambda>l. l @ [newline]) ls) =
           (concat (map (\<lambda>l. l @ [newline]) (butlast ls)) @ butlast (last ls)) @
           [last (last ls), newline]"
proof -
  from assms(1) have "ls = butlast ls @ [last ls]" by simp
  then have "concat (map (\<lambda>l. l @ [newline]) ls) =
      concat (map (\<lambda>l. l @ [newline]) (butlast ls)) @ last ls @ [newline]"
    by (metis (no_types, lifting) append_Nil2 concat.simps concat_append list.simps(8,9) map_append)
  moreover from assms(2) have "last ls = butlast (last ls) @ [last (last ls)]" by simp
  ultimately show ?thesis
    by (metis append.assoc append_Cons append_Nil)
qed

subsection \<open>The scenarios of section 8\<close>

lemmas eval_defs =
  fits_def needs_parens_def paren_if_def wrap_parens_def on_new_line_def indent_def
  bracketed_def atom_strength_def postfix_strength_def unary_strength_def ternary_strength_def
  binary_assoc_def eval_nat_numeral

lemma scenario_1: "layout default_options 0 False scenario1 = [''1 + 2 * 3'']"
  by (simp add: scenario1_def default_options_def eval_defs)

lemma scenario_2: "layout default_options 0 False scenario2 = [''[1, 2, 3]'']"
  by (simp add: scenario2_def default_options_def eval_defs)

lemma scenario_4:
  "layout width60 0 False scenario4 =
     [''(has(metadata.labels) && '' @ [CHR 0x22] @ ''app'' @ [CHR 0x22] @ '' in metadata.labels) &&'',
      ''  (has(spec.template.spec.containers) &&'',
      ''    size(spec.template.spec.containers) > 0)'']"
  by (simp add: scenario4_def call_has_def width60_def fits_def needs_parens_def paren_if_def
      wrap_parens_def on_new_line_def indent_def atom_strength_def postfix_strength_def
      eval_nat_numeral)

lemma wf_scenario4: "wf_tokens scenario4"
  by (simp add: scenario4_def call_has_def token_ok_def clean_def newline_def is_blank_def)

subsection \<open>Output shape\<close>

text \<open>
  C6. For every successful \<open>format\<close> call, that is, whenever the parser returns a tree (with
  well-formed tokens), the returned text is the lines of the layout from indent depth 0,
  each ended by a line feed; there is at least one line; no line is empty, contains a line
  feed or ends in white space; hence the text ends with exactly one line feed.
\<close>

theorem format_output_shape:
  assumes "parse source_text = Inr tree" and "wf_tokens tree"
  shows "format parse source_text opts =
           Inr (concat (map (\<lambda>l. l @ [newline]) (layout opts 0 False tree))) \<and>
         layout opts 0 False tree \<noteq> [] \<and>
         (\<forall>l \<in> set (layout opts 0 False tree).
            l \<noteq> [] \<and> newline \<notin> set l \<and> \<not> is_blank (last l)) \<and>
         (\<exists>body c. c \<noteq> newline \<and>
            concat (map (\<lambda>l. l @ [newline]) (layout opts 0 False tree)) = body @ [c, newline])"
proof -
  let ?ls = "layout opts 0 False tree"
  from assms(2) have good: "good_lines ?ls" by (rule layout_good)
  then have ne: "?ls \<noteq> []" and all: "\<forall>l \<in> set ?ls. token_ok l"
    by (simp_all add: good_lines_def list_all_iff)
  from assms(1) ne have "format parse source_text opts = Inr (concat (map (\<lambda>l. l @ [newline]) ?ls))"
    by (simp add: format_def render_text_concat)
  moreover from all have "\<forall>l \<in> set ?ls. l \<noteq> [] \<and> newline \<notin> set l \<and> \<not> is_blank (last l)"
    by (simp add: token_ok_def)
  moreover have "\<exists>body c. c \<noteq> newline \<and>
      concat (map (\<lambda>l. l @ [newline]) ?ls) = body @ [c, newline]"
  proof -
    from ne all have t: "token_ok (last ?ls)" by simp
    then have l: "last ?ls \<noteq> []" and "newline \<notin> set (last ?ls)"
      by (simp_all add: token_ok_def)
    then have "last (last ?ls) \<noteq> newline"
      by (metis last_in_set)
    with concat_lines_end [OF ne l] show ?thesis by blast
  qed
  ultimately show ?thesis using ne by blast
qed

text \<open>The theorem at scenario 4 of section 8: three lines, each ended by a line feed.\<close>

theorem format_output_shape_witness:
  "wf_tokens scenario4 \<and>
   format single_source_parser scenario4_source width60 =
     Inr (''(has(metadata.labels) && '' @ [CHR 0x22] @ ''app'' @ [CHR 0x22] @
            '' in metadata.labels) &&'' @ [newline] @
          ''  (has(spec.template.spec.containers) &&'' @ [newline] @
          ''    size(spec.template.spec.containers) > 0)'' @ [newline])"
proof -
  have p: "single_source_parser scenario4_source = Inr scenario4"
    by (simp add: single_source_parser_def)
  from format_output_shape [of single_source_parser scenario4_source scenario4 width60, OF p wf_scenario4]
  have "format single_source_parser scenario4_source width60 =
          Inr (concat (map (\<lambda>l. l @ [newline]) (layout width60 0 False scenario4)))"
    by (rule conjunct1)
  then show ?thesis
    using wf_scenario4 by (simp add: scenario_4)
qed

subsection \<open>Parentheses around a right operand\<close>

text \<open>
  C2. For every binary expression \<open>a op1 (b op2 c)\<close>: \<open>needs_parens\<close> asks for parentheses
  around the right subtree if and only if \<open>op2\<close> binds more weakly than \<open>op1\<close>, or equally
  with the associativity of \<open>op1\<close> conflicting with the right-operand position; the
  single-line form wraps the right subtree exactly then; and so does the multi-line path,
  which wraps the right operand's block under the same condition.
\<close>

theorem binary_right_operand_parens:
  "(needs_parens (Binary op2 b c) (BinaryRight op1) \<longleftrightarrow>
      binary_strength op2 < binary_strength op1 \<or>
      binary_strength op2 = binary_strength op1 \<and> conflicts (binary_assoc op1) RightSide) \<and>
   single_line (Binary op1 a (Binary op2 b c)) =
     paren_if (needs_parens a (BinaryLeft op1)) (single_line a) @ '' '' @ binary_text op1 @ '' '' @
     (if binary_strength op2 < binary_strength op1 \<or>
         binary_strength op2 = binary_strength op1 \<and> conflicts (binary_assoc op1) RightSide
      then ''('' @ single_line (Binary op2 b c) @ '')''
      else single_line (Binary op2 b c)) \<and>
   layout opts depth forced (Binary op1 a (Binary op2 b c)) =
     (if \<not> forced \<and> fits opts depth (single_line (Binary op1 a (Binary op2 b c)))
      then [single_line (Binary op1 a (Binary op2 b c))]
      else
        append_last
          (wrap_parens (needs_parens a (BinaryLeft op1))
             (layout opts depth (continues_chain op1 a \<and> \<not> needs_parens a (BinaryLeft op1)) a))
          ('' '' @ binary_text op1) @
        on_new_line opts (depth + 1)
          (if binary_strength op2 < binary_strength op1 \<or>
              binary_strength op2 = binary_strength op1 \<and> conflicts (binary_assoc op1) RightSide
           then append_last (prefix_first ''('' (layout opts (depth + 1) False (Binary op2 b c))) '')''
           else layout opts (depth + 1) False (Binary op2 b c)))"
proof -
  have np: "needs_parens (Binary op2 b c) (BinaryRight op1) \<longleftrightarrow>
      binary_strength op2 < binary_strength op1 \<or>
      binary_strength op2 = binary_strength op1 \<and> conflicts (binary_assoc op1) RightSide"
    by (simp add: needs_parens_def)
  have sl: "single_line (Binary op1 a (Binary op2 b c)) =
     paren_if (needs_parens a (BinaryLeft op1)) (single_line a) @ '' '' @ binary_text op1 @ '' '' @
     paren_if (needs_parens (Binary op2 b c) (BinaryRight op1)) (single_line (Binary op2 b c))"
    by (simp only: single_line.simps)
  have lo: "layout opts depth forced (Binary op1 a (Binary op2 b c)) =
     (if \<not> forced \<and> fits opts depth (single_line (Binary op1 a (Binary op2 b c)))
      then [single_line (Binary op1 a (Binary op2 b c))]
      else
        append_last
          (wrap_parens (needs_parens a (BinaryLeft op1))
             (layout opts depth (continues_chain op1 a \<and> \<not> needs_parens a (BinaryLeft op1)) a))
          ('' '' @ binary_text op1) @
        on_new_line opts (depth + 1)
          (wrap_parens (needs_parens (Binary op2 b c) (BinaryRight op1))
             (layout opts (depth + 1) False (Binary op2 b c))))"
    by (simp only: layout.simps)
  show ?thesis
    unfolding lo sl unfolding np paren_if_def wrap_parens_def by simp
qed

text \<open>The theorem at \<^verbatim>\<open>a - (b - c)\<close>, on one line and broken at width 4.\<close>

theorem binary_right_operand_parens_witness:
  "needs_parens (Binary OpSub (Identifier ''b'') (Identifier ''c'')) (BinaryRight OpSub) \<and>
   single_line difference_of_difference = ''a - (b - c)'' \<and>
   layout (width12\<lparr>max_width := 4\<rparr>) 0 False difference_of_difference =
     [''a -'', ''  (b -'', ''    c)'']"
proof -
  note t = binary_right_operand_parens [of OpSub "Identifier ''b''" "Identifier ''c''" OpSub
      "Identifier ''a''" "width12\<lparr>max_width := 4\<rparr>" 0 False]
  have n: "needs_parens (Binary OpSub (Identifier ''b'') (Identifier ''c'')) (BinaryRight OpSub)"
    unfolding t [THEN conjunct1] by (simp add: binary_assoc_def)
  have s: "single_line difference_of_difference = ''a - (b - c)''"
    unfolding difference_of_difference_def t [THEN conjunct2, THEN conjunct1]
    by (simp add: eval_defs)
  have l: "layout (width12\<lparr>max_width := 4\<rparr>) 0 False difference_of_difference =
     [''a -'', ''  (b -'', ''    c)'']"
    unfolding difference_of_difference_def t [THEN conjunct2, THEN conjunct2]
    by (simp add: width12_def eval_defs)
  from n s l show ?thesis by simp
qed

subsection \<open>Trailing comma\<close>

text \<open>
  C5. A list of three elements that fits is the one line \<^verbatim>\<open>[a, b, c]\<close>, with no comma after
  the last element whatever \<open>trailing_comma\<close> says; when it does not fit, every element
  starts a line of its own one level deeper, the first two end with a comma, and the last
  ends with a comma exactly when \<open>trailing_comma\<close> is set.
\<close>

theorem list_trailing_comma:
  "layout opts depth forced (List [a, b, c]) =
     (if fits opts depth
           (''['' @ single_line a @ '', '' @ single_line b @ '', '' @ single_line c @ '']'')
      then [''['' @ single_line a @ '', '' @ single_line b @ '', '' @ single_line c @ '']'']
      else
        [''[''] @
        on_new_line opts (depth + 1) (append_last (layout opts (depth + 1) False a) '','') @
        on_new_line opts (depth + 1) (append_last (layout opts (depth + 1) False b) '','') @
        on_new_line opts (depth + 1)
          (if trailing_comma opts then append_last (layout opts (depth + 1) False c) '',''
           else layout opts (depth + 1) False c) @
        [indent opts depth @ '']''])"
  by (simp add: bracketed_def)

text \<open>
  The theorem at \<^verbatim>\<open>[1000, 2000, 3000]\<close>: wrapped at width 12 with and without the flag, on
  one line at width 60 with and without it.
\<close>

theorem list_trailing_comma_witness:
  "layout width12 0 False numbers3 = [''['', ''  1000,'', ''  2000,'', ''  3000,'', '']''] \<and>
   layout (width12\<lparr>trailing_comma := False\<rparr>) 0 False numbers3 =
     [''['', ''  1000,'', ''  2000,'', ''  3000'', '']''] \<and>
   layout width60 0 False numbers3 = [''[1000, 2000, 3000]''] \<and>
   layout (width60\<lparr>trailing_comma := False\<rparr>) 0 False numbers3 = [''[1000, 2000, 3000]'']"
  unfolding numbers3_def list_trailing_comma
  by (simp add: width12_def width60_def eval_defs)

subsection \<open>A broken binary chain\<close>

lemma prefix_first_nonempty [simp]: "prefix_first p ls \<noteq> []"
  by (cases ls) simp_all

lemma append_last_nonempty [simp]: "append_last ls s \<noteq> []"
  by (induction ls s rule: append_last.induct) simp_all

lemma length_append_last [simp]: "length (append_last ls s) = max 1 (length ls)"
  by (induction ls s rule: append_last.induct) simp_all

text \<open>
  In this layout, a binary node whose single-line form does not fit at its depth is spread
  over at least two lines.
\<close>

lemma broken_binary_spans_lines:
  assumes "\<not> fits opts depth (single_line (Binary op l r))"
  shows "1 < length (layout opts depth forced (Binary op l r))"
proof -
  from assms have "layout opts depth forced (Binary op l r) =
      append_last
        (wrap_parens (needs_parens l (BinaryLeft op))
           (layout opts depth (continues_chain op l \<and> \<not> needs_parens l (BinaryLeft op)) l))
        ('' '' @ binary_text op) @
      on_new_line opts (depth + 1)
        (wrap_parens (needs_parens r (BinaryRight op)) (layout opts (depth + 1) False r))"
    by (simp del: single_line.simps)
  moreover have "1 \<le> length (on_new_line opts (depth + 1)
      (wrap_parens (needs_parens r (BinaryRight op)) (layout opts (depth + 1) False r)))"
    by (simp add: on_new_line_def Suc_le_eq)
  ultimately show ?thesis by simp
qed

end
